theory Spec2Isabelle
  imports Main "HOL-Library.AList"
begin

section \<open>JavaScript values held in the JSONB permission column\<close>

text \<open>
  The permission map is JSON data: objects are association lists in insertion order
  (the order \<^verbatim>\<open>Object.keys\<close> follows for keys that are not array indices), scalars
  are kept as they are. A plain object also answers for the members it inherits from
  \<^verbatim>\<open>Object.prototype\<close>; \<open>JBuiltin k\<close> is the inherited member of that name: a
  built-in function, or for \<^verbatim>\<open>__proto__\<close> the prototype object itself.
\<close>

datatype jsval =
    JUndefined
  | JNull
  | JBool bool
  | JNum int
  | JStr string
  | JObj "(string \<times> jsval) list"
  | JBuiltin string

text \<open>
  What the modelled code throws: a TypeError of the language, the validation error
  Sequelize raises for a \<^verbatim>\<open>null\<close> in a column declared \<^verbatim>\<open>allowNull: false\<close>, and
  the error of the beforeDestroy hook
  (\<^verbatim>\<open>new Error('Cannot remove the last owner of an organization')\<close>), which the
  specification calls \<open>LastOwnerViolation\<close>.
\<close>

datatype error =
    TypeError
  | ValidationError
  | LastOwnerViolation

text \<open>Truthiness as \<^verbatim>\<open>!v\<close>, \<^verbatim>\<open>v || w\<close> and \<^verbatim>\<open>if (v)\<close> test it.\<close>

fun js_truthy :: "jsval \<Rightarrow> bool" where
  "js_truthy JUndefined = False"
| "js_truthy JNull = False"
| "js_truthy (JBool b) = b"
| "js_truthy (JNum n) = (n \<noteq> 0)"
| "js_truthy (JStr s) = (s \<noteq> [])"
| "js_truthy (JObj kvs) = True"
| "js_truthy (JBuiltin k) = True"

definition object_prototype_keys :: "string list" where
  "object_prototype_keys =
     [''constructor'', ''__proto__'', ''hasOwnProperty'', ''isPrototypeOf'',
      ''propertyIsEnumerable'', ''toLocaleString'', ''toString'', ''valueOf'',
      ''__defineGetter__'', ''__defineSetter__'', ''__lookupGetter__'',
      ''__lookupSetter__'']"

text \<open>
  \<^verbatim>\<open>obj[key]\<close> on a plain object: the own property, else the member inherited
  from \<^verbatim>\<open>Object.prototype\<close>, else \<^verbatim>\<open>undefined\<close>.
\<close>

definition obj_get :: "(string \<times> jsval) list \<Rightarrow> string \<Rightarrow> jsval" where
  "obj_get kvs key =
     (case map_of kvs key of
        Some v \<Rightarrow> v
      | None \<Rightarrow> if key \<in> set object_prototype_keys then JBuiltin key else JUndefined)"

text \<open>
  \<^verbatim>\<open>v[key] === true\<close>. Reading a member of \<^verbatim>\<open>null\<close> or
  \<^verbatim>\<open>undefined\<close> throws. A built-in function inherits the accessors
  \<^verbatim>\<open>caller\<close> and \<^verbatim>\<open>arguments\<close> of \<^verbatim>\<open>Function.prototype\<close>, whose getter
  throws a TypeError; every other member of a built-in, and every member of a string,
  number or boolean, is a function, a number, a string, an object or undefined, never
  the boolean \<^verbatim>\<open>true\<close>.
\<close>

fun get_is_true :: "jsval \<Rightarrow> string \<Rightarrow> error + bool" where
  "get_is_true JUndefined key = Inl TypeError"
| "get_is_true JNull key = Inl TypeError"
| "get_is_true (JObj cells) key = Inr (obj_get cells key = JBool True)"
| "get_is_true (JBuiltin b) key =
     (if b \<noteq> ''__proto__'' \<and> (key = ''caller'' \<or> key = ''arguments'')
      then Inl TypeError else Inr False)"
| "get_is_true (JBool b) key = Inr False"
| "get_is_true (JNum n) key = Inr False"
| "get_is_true (JStr s) key = Inr False"

section \<open>Permission matrix\<close>

datatype role = Owner | Admin | Manager | Employee | Viewer | Guest

fun role_name :: "role \<Rightarrow> string" where
  "role_name Owner = ''owner''"
| "role_name Admin = ''admin''"
| "role_name Manager = ''manager''"
| "role_name Employee = ''employee''"
| "role_name Viewer = ''viewer''"
| "role_name Guest = ''guest''"

text \<open>Position in the privilege order \<open>owner > admin > manager > employee > viewer > guest\<close>.\<close>

fun privilege :: "role \<Rightarrow> nat" where
  "privilege Owner = 5"
| "privilege Admin = 4"
| "privilege Manager = 3"
| "privilege Employee = 2"
| "privilege Viewer = 1"
| "privilege Guest = 0"

definition users_row :: "bool \<Rightarrow> bool \<Rightarrow> bool \<Rightarrow> bool \<Rightarrow> string \<times> jsval" where
  "users_row r w d i =
     (''users'', JObj [(''read'', JBool r), (''write'', JBool w),
                       (''delete'', JBool d), (''invite'', JBool i)])"

definition organizations_row :: "bool \<Rightarrow> bool \<Rightarrow> bool \<Rightarrow> bool \<Rightarrow> string \<times> jsval" where
  "organizations_row r w d s =
     (''organizations'', JObj [(''read'', JBool r), (''write'', JBool w),
                               (''delete'', JBool d), (''settings'', JBool s)])"

definition reports_row :: "bool \<Rightarrow> bool \<Rightarrow> bool \<Rightarrow> string \<times> jsval" where
  "reports_row r w e =
     (''reports'', JObj [(''read'', JBool r), (''write'', JBool w), (''export'', JBool e)])"

definition billing_row :: "bool \<Rightarrow> bool \<Rightarrow> string \<times> jsval" where
  "billing_row r w = (''billing'', JObj [(''read'', JBool r), (''write'', JBool w)])"

definition api_row :: "bool \<Rightarrow> bool \<Rightarrow> string \<times> jsval" where
  "api_row r w = (''api'', JObj [(''read'', JBool r), (''write'', JBool w)])"

text \<open>The object literal \<^verbatim>\<open>rolePermissions\<close> of \<^verbatim>\<open>getRolePermissions\<close>.\<close>

definition rolePermissions :: "(string \<times> jsval) list" where
  "rolePermissions =
    [(''owner'', JObj
        [users_row True True True True, organizations_row True True True True,
         reports_row True True True, billing_row True True, api_row True True]),
     (''admin'', JObj
        [users_row True True True True, organizations_row True True False True,
         reports_row True True True, billing_row True False, api_row True True]),
     (''manager'', JObj
        [users_row True True False True, organizations_row True False False False,
         reports_row True True True, billing_row False False, api_row True False]),
     (''employee'', JObj
        [users_row True False False False, organizations_row True False False False,
         reports_row True False False, billing_row False False, api_row False False]),
     (''viewer'', JObj
        [users_row True False False False, organizations_row True False False False,
         reports_row True False False, billing_row False False, api_row False False]),
     (''guest'', JObj
        [users_row False False False False, organizations_row True False False False,
         reports_row False False False, billing_row False False, api_row False False])]"

text \<open>
  \<^verbatim>\<open>return rolePermissions[role] || rolePermissions.guest\<close>. A role that is not a
  string reaches the lookup as its string form.
\<close>

definition getRolePermissions :: "string \<Rightarrow> jsval" where
  "getRolePermissions role_key =
     (let found = obj_get rolePermissions role_key
      in if js_truthy found then found else obj_get rolePermissions ''guest'')"

text \<open>The table of one of the six enum roles, as \<^verbatim>\<open>getRolePermissions\<close> returns it.\<close>

definition role_table :: "role \<Rightarrow> (string \<times> jsval) list" where
  "role_table r = (case getRolePermissions (role_name r) of JObj t \<Rightarrow> t | _ \<Rightarrow> [])"

section \<open>Membership record (OrganizationUser)\<close>

text \<open>
  The attributes the hooks and guards read. \<open>role\<close> is the ENUM column;
  \<open>permissions\<close> is the JSONB column: a JSON object, or \<open>None\<close> for
  \<^verbatim>\<open>null\<close>/\<^verbatim>\<open>undefined\<close>.
\<close>

record membership =
  m_id :: string
  userId :: string
  organizationId :: string
  role :: role
  permissions :: "(string \<times> jsval) list option"
  isActive :: bool

text \<open>\<^verbatim>\<open>this.permissions || {}\<close>, and equally the spread \<^verbatim>\<open>{ ...this.permissions }\<close>.\<close>

definition permissions_or_empty :: "membership \<Rightarrow> (string \<times> jsval) list" where
  "permissions_or_empty m = (case permissions m of None \<Rightarrow> [] | Some kvs \<Rightarrow> kvs)"

definition hasPermission :: "membership \<Rightarrow> string \<Rightarrow> string \<Rightarrow> error + bool" where
  "hasPermission m resource action =
     (let resourcePerms = obj_get (permissions_or_empty m) resource
      in if \<not> js_truthy resourcePerms then Inr False
         else get_is_true resourcePerms action)"

text \<open>
  An assignment \<^verbatim>\<open>builtin[action] = true\<close> to a member inherited from
  \<^verbatim>\<open>Object.prototype\<close>. The module is strict-mode code, so the assignment throws
  where the built-in function has a throwing setter (\<^verbatim>\<open>caller\<close>,
  \<^verbatim>\<open>arguments\<close>) or a read-only property (\<^verbatim>\<open>name\<close>, \<^verbatim>\<open>length\<close>, and
  \<^verbatim>\<open>prototype\<close> of the \<^verbatim>\<open>Object\<close> constructor); everywhere else it succeeds.
\<close>

definition builtin_write_throws :: "string \<Rightarrow> string \<Rightarrow> bool" where
  "builtin_write_throws b action =
     (b \<noteq> ''__proto__''
        \<and> (action = ''caller'' \<or> action = ''arguments'' \<or> action = ''name''
            \<or> action = ''length'')
      \<or> b = ''constructor'' \<and> action = ''prototype'')"

text \<open>
  \<^verbatim>\<open>target[resource][action] = true\<close>. Creating a property on a primitive, or on
  \<^verbatim>\<open>null\<close>/\<^verbatim>\<open>undefined\<close>, throws in strict mode. When
  \<^verbatim>\<open>target[resource]\<close> is a member inherited from \<^verbatim>\<open>Object.prototype\<close> the
  write lands on that shared built-in: the map itself is unchanged and the code goes
  on. What the write does to the built-in is not part of the map and is not followed.
\<close>

definition set_cell_true ::
  "(string \<times> jsval) list \<Rightarrow> string \<Rightarrow> string \<Rightarrow> error + (string \<times> jsval) list" where
  "set_cell_true target resource action =
     (case map_of target resource of
        Some (JObj cells) \<Rightarrow>
          Inr (AList.update resource (JObj (AList.update action (JBool True) cells)) target)
      | Some (JBuiltin b) \<Rightarrow>
          if builtin_write_throws b action then Inl TypeError else Inr target
      | Some _ \<Rightarrow> Inl TypeError
      | None \<Rightarrow>
          if resource \<in> set object_prototype_keys then
            (if builtin_write_throws resource action then Inl TypeError else Inr target)
          else Inl TypeError)"

text \<open>Decimal form of an array index, the keys \<^verbatim>\<open>Object.keys\<close> gives for a string.\<close>

fun string_of_nat :: "nat \<Rightarrow> string" where
  "string_of_nat n =
     (if n < 10 then [char_of (48 + n)]
      else string_of_nat (n div 10) @ [char_of (48 + n mod 10)])"

fun object_keys :: "jsval \<Rightarrow> error + string list" where
  "object_keys JUndefined = Inl TypeError"
| "object_keys JNull = Inl TypeError"
| "object_keys (JObj kvs) = Inr (map fst kvs)"
| "object_keys (JStr s) = Inr (map string_of_nat [0..<length s])"
| "object_keys (JBool b) = Inr []"
| "object_keys (JNum n) = Inr []"
| "object_keys (JBuiltin b) = Inr []"

subsection \<open>Creation\<close>

text \<open>The column's \<^verbatim>\<open>defaultValue\<close>: every cell false.\<close>

definition permissions_defaultValue :: "(string \<times> jsval) list" where
  "permissions_defaultValue =
     [users_row False False False False, organizations_row False False False False,
      reports_row False False False, billing_row False False, api_row False False]"

text \<open>
  What the caller passes to \<^verbatim>\<open>OrganizationUser.create\<close>. An attribute left out is
  \<open>None\<close>; for the permissions, \<open>Some None\<close> is an explicit \<^verbatim>\<open>null\<close>.
\<close>

record create_values =
  v_userId :: string
  v_organizationId :: string
  v_role :: "role option"
  v_permissions :: "(string \<times> jsval) list option option"
  v_isActive :: "bool option"

text \<open>
  Sequelize builds the instance before any hook runs, and gives every attribute the
  caller left undefined its column's \<^verbatim>\<open>defaultValue\<close> (\<^verbatim>\<open>'employee'\<close> for the
  role, the all-false map for the permissions, \<^verbatim>\<open>true\<close> for isActive). The fresh
  primary key is a parameter.
\<close>

definition build :: "string \<Rightarrow> create_values \<Rightarrow> membership" where
  "build new_id vals =
     \<lparr> m_id = new_id,
       userId = v_userId vals,
       organizationId = v_organizationId vals,
       role = (case v_role vals of None \<Rightarrow> Employee | Some r \<Rightarrow> r),
       permissions =
         (case v_permissions vals of None \<Rightarrow> Some permissions_defaultValue | Some p \<Rightarrow> p),
       isActive = (case v_isActive vals of None \<Rightarrow> True | Some b \<Rightarrow> b) \<rparr>"

definition beforeCreate :: "membership \<Rightarrow> membership" where
  "beforeCreate orgUser =
     (if permissions orgUser = None \<or> length (map fst (permissions_or_empty orgUser)) = 0
      then orgUser\<lparr>permissions := Some (role_table (role orgUser))\<rparr>
      else orgUser)"

text \<open>
  \<^verbatim>\<open>OrganizationUser.create\<close>: the built instance is validated before the
  beforeCreate hook runs, and the permissions column is \<^verbatim>\<open>allowNull: false\<close>, so
  an explicit \<^verbatim>\<open>null\<close> is refused with a validation error and no row is written.
  The other columns declared \<^verbatim>\<open>allowNull: false\<close> cannot be null in this record.
\<close>

definition create :: "string \<Rightarrow> create_values \<Rightarrow> error + membership" where
  "create new_id vals =
     (let orgUser = build new_id vals
      in if permissions orgUser = None then Inl ValidationError
         else Inr (beforeCreate orgUser))"

subsection \<open>Role change\<close>

text \<open>
  The inner \<^verbatim>\<open>forEach\<close> of the beforeUpdate hook, over the keys of
  \<^verbatim>\<open>currentPermissions[resource]\<close>: every cell that is exactly \<^verbatim>\<open>true\<close> there is
  written into \<^verbatim>\<open>mergedPermissions[resource]\<close>.
\<close>

fun merge_actions ::
  "string \<Rightarrow> jsval \<Rightarrow> string list \<Rightarrow> (string \<times> jsval) list
     \<Rightarrow> error + (string \<times> jsval) list" where
  "merge_actions resource current_cells [] merged = Inr merged"
| "merge_actions resource current_cells (action # rest) merged =
     (case get_is_true current_cells action of
        Inl e \<Rightarrow> Inl e
      | Inr True \<Rightarrow>
          (case set_cell_true merged resource action of
             Inl e \<Rightarrow> Inl e
           | Inr merged' \<Rightarrow> merge_actions resource current_cells rest merged')
      | Inr False \<Rightarrow> merge_actions resource current_cells rest merged)"

text \<open>
  The outer \<^verbatim>\<open>forEach\<close>, over the keys of \<^verbatim>\<open>currentPermissions\<close>: a resource is
  merged when \<^verbatim>\<open>mergedPermissions[resource]\<close> is truthy.
\<close>

fun merge_resources ::
  "(string \<times> jsval) list \<Rightarrow> string list \<Rightarrow> (string \<times> jsval) list
     \<Rightarrow> error + (string \<times> jsval) list" where
  "merge_resources currentPermissions [] merged = Inr merged"
| "merge_resources currentPermissions (resource # rest) merged =
     (if js_truthy (obj_get merged resource) then
        (case object_keys (obj_get currentPermissions resource) of
           Inl e \<Rightarrow> Inl e
         | Inr actions \<Rightarrow>
             (case merge_actions resource (obj_get currentPermissions resource) actions merged of
                Inl e \<Rightarrow> Inl e
              | Inr merged' \<Rightarrow> merge_resources currentPermissions rest merged'))
      else merge_resources currentPermissions rest merged)"

text \<open>
  The beforeUpdate hook. \<open>role_changed\<close> is \<^verbatim>\<open>orgUser.changed('role')\<close>; the
  instance already carries the new role.
\<close>

definition beforeUpdate :: "bool \<Rightarrow> membership \<Rightarrow> error + membership" where
  "beforeUpdate role_changed orgUser =
     (if role_changed then
        (let rolePerms = role_table (role orgUser);
             currentPermissions = permissions_or_empty orgUser
         in case merge_resources currentPermissions (map fst currentPermissions) rolePerms of
              Inl e \<Rightarrow> Inl e
            | Inr mergedPermissions \<Rightarrow> Inr (orgUser\<lparr>permissions := Some mergedPermissions\<rparr>))
      else Inr orgUser)"

text \<open>
  \<^verbatim>\<open>grantPermission\<close>: the map is copied, a missing resource gets an empty object,
  the cell is set, and \<^verbatim>\<open>this.update({ permissions })\<close> runs the beforeUpdate hook
  with the role unchanged.
\<close>

definition grantPermission :: "string \<Rightarrow> string \<Rightarrow> membership \<Rightarrow> error + membership" where
  "grantPermission resource action m =
     (let copied = permissions_or_empty m;
          perms = (if \<not> js_truthy (obj_get copied resource)
                   then AList.update resource (JObj []) copied else copied)
      in case set_cell_true perms resource action of
           Inl e \<Rightarrow> Inl e
         | Inr granted \<Rightarrow> beforeUpdate False (m\<lparr>permissions := Some granted\<rparr>))"

text \<open>\<^verbatim>\<open>membership.update({ role })\<close>: the role is set, then the hook runs.\<close>

definition update_role :: "role \<Rightarrow> membership \<Rightarrow> error + membership" where
  "update_role new_role m = beforeUpdate (role m \<noteq> new_role) (m\<lparr>role := new_role\<rparr>)"

subsection \<open>Deletion\<close>

text \<open>
  The table holds the rows that are not soft-deleted, which are the rows
  \<^verbatim>\<open>OrganizationUser.count\<close> sees.
\<close>

definition count_other_owners :: "membership \<Rightarrow> membership list \<Rightarrow> nat" where
  "count_other_owners orgUser rows =
     length (filter (\<lambda>r. organizationId r = organizationId orgUser
                          \<and> role_name (role r) = ''owner''
                          \<and> isActive r
                          \<and> m_id r \<noteq> m_id orgUser) rows)"

definition beforeDestroy :: "membership \<Rightarrow> membership list \<Rightarrow> error + unit" where
  "beforeDestroy orgUser rows =
     (if role_name (role orgUser) = ''owner'' then
        (let otherOwners = count_other_owners orgUser rows
         in if otherOwners = 0 then Inl LastOwnerViolation else Inr ())
      else Inr ())"

text \<open>
  \<^verbatim>\<open>membership.destroy()\<close>: the hook runs first; when it throws nothing is written,
  otherwise the row leaves the table.
\<close>

definition destroy :: "membership \<Rightarrow> membership list \<Rightarrow> (error + unit) \<times> membership list" where
  "destroy orgUser rows =
     (case beforeDestroy orgUser rows of
        Inl e \<Rightarrow> (Inl e, rows)
      | Inr u \<Rightarrow> (Inr (), filter (\<lambda>r. m_id r \<noteq> m_id orgUser) rows))"

section \<open>Organization hierarchy\<close>

record organization =
  org_id :: string
  name :: string
  slug :: string
  parentId :: "string option"
  org_isActive :: bool

text \<open>
  Truthiness of an identifier or of a request string that may be missing: \<open>None\<close> is
  \<^verbatim>\<open>null\<close>/\<^verbatim>\<open>undefined\<close>, and the empty string is falsy too.
\<close>

fun str_truthy :: "string option \<Rightarrow> bool" where
  "str_truthy None = False"
| "str_truthy (Some s) = (s \<noteq> [])"

text \<open>\<^verbatim>\<open>Organization.findByPk\<close> over the rows that are not soft-deleted.\<close>

definition findByPk :: "organization list \<Rightarrow> string option \<Rightarrow> organization option" where
  "findByPk orgs pk =
     (case pk of None \<Rightarrow> None | Some k \<Rightarrow> find (\<lambda>organization. org_id organization = k) orgs)"

type_synonym hierarchy_entry = "string \<times> string \<times> string"

text \<open>
  The \<^verbatim>\<open>while (current)\<close> loop of \<^verbatim>\<open>getFullHierarchy\<close>; \<^verbatim>\<open>unshift\<close> puts the
  entry \<open>(id, name, slug)\<close> in front. The source has no bound on the number of
  rounds, so a walk that never leaves the loop has the value \<open>None\<close>.
\<close>

partial_function (option) hierarchy_walk ::
  "organization list \<Rightarrow> organization option \<Rightarrow> hierarchy_entry list
     \<Rightarrow> hierarchy_entry list option" where
  "hierarchy_walk orgs current hierarchy =
     (case current of
        None \<Rightarrow> Some hierarchy
      | Some c \<Rightarrow>
          hierarchy_walk orgs
            (if str_truthy (parentId c) then findByPk orgs (parentId c) else None)
            ((org_id c, name c, slug c) # hierarchy))"

definition getFullHierarchy ::
  "organization list \<Rightarrow> organization \<Rightarrow> hierarchy_entry list option" where
  "getFullHierarchy orgs this = hierarchy_walk orgs (Some this) []"

text \<open>The \<^verbatim>\<open>while (current && current.parentId)\<close> loop of \<^verbatim>\<open>isDescendantOf\<close>.\<close>

partial_function (option) descendant_walk ::
  "organization list \<Rightarrow> organization option \<Rightarrow> string option \<Rightarrow> bool option" where
  "descendant_walk orgs current ancestorId =
     (case current of
        None \<Rightarrow> Some False
      | Some c \<Rightarrow>
          if str_truthy (parentId c) then
            (if parentId c = ancestorId then Some True
             else descendant_walk orgs (findByPk orgs (parentId c)) ancestorId)
          else Some False)"

definition isDescendantOf ::
  "organization list \<Rightarrow> organization \<Rightarrow> string option \<Rightarrow> bool option" where
  "isDescendantOf orgs this ancestorId = descendant_walk orgs (Some this) ancestorId"

text \<open>\<open>Some False\<close> is the rejection.\<close>

definition validateHierarchy ::
  "organization list \<Rightarrow> string option \<Rightarrow> string option \<Rightarrow> bool option" where
  "validateHierarchy orgs new_parentId childId =
     (if \<not> str_truthy new_parentId \<or> \<not> str_truthy childId \<or> new_parentId = childId
      then Some False
      else (case findByPk orgs new_parentId of
              None \<Rightarrow> Some False
            | Some parent \<Rightarrow> map_option Not (isDescendantOf orgs parent childId)))"

text \<open>
  The parent chain of an organization as the store holds it: the organization itself,
  then its parent row, and so on, ending at a row with no parent reference or with a
  reference to a row that is not there.
\<close>

inductive parent_chain :: "organization list \<Rightarrow> organization \<Rightarrow> organization list \<Rightarrow> bool" where
  chain_root: "\<not> str_truthy (parentId c) \<Longrightarrow> parent_chain orgs c [c]"
| chain_dangling:
    "str_truthy (parentId c) \<Longrightarrow> findByPk orgs (parentId c) = None \<Longrightarrow> parent_chain orgs c [c]"
| chain_step:
    "str_truthy (parentId c) \<Longrightarrow> findByPk orgs (parentId c) = Some p
       \<Longrightarrow> parent_chain orgs p chain \<Longrightarrow> parent_chain orgs c (c # chain)"

text \<open>
  \<open>ancestor_of orgs a c\<close>: the identifier \<open>a\<close> is reached from organization \<open>c\<close> by
  following parent references one or more times.
\<close>

inductive ancestor_of :: "organization list \<Rightarrow> string \<Rightarrow> organization \<Rightarrow> bool" where
  ancestor_parent: "str_truthy (parentId c) \<Longrightarrow> parentId c = Some a \<Longrightarrow> ancestor_of orgs a c"
| ancestor_step:
    "str_truthy (parentId c) \<Longrightarrow> findByPk orgs (parentId c) = Some p
       \<Longrightarrow> ancestor_of orgs a p \<Longrightarrow> ancestor_of orgs a c"

section \<open>Tenant middleware\<close>

subsection \<open>Tenant identifier\<close>

text \<open>
  The signals \<^verbatim>\<open>extractTenantIdentifier\<close> reads: \<^verbatim>\<open>req.params.tenantSlug\<close>,
  \<^verbatim>\<open>req.params.orgSlug\<close>, the headers \<^verbatim>\<open>x-tenant-id\<close> and
  \<^verbatim>\<open>x-organization-slug\<close>, and \<^verbatim>\<open>req.get('host')\<close>.
\<close>

record request =
  params_tenantSlug :: "string option"
  params_orgSlug :: "string option"
  header_x_tenant_id :: "string option"
  header_x_organization_slug :: "string option"
  host :: "string option"

text \<open>\<^verbatim>\<open>host.split('.')\<close>: one part more than there are dots.\<close>

fun split_dot :: "string \<Rightarrow> string list" where
  "split_dot [] = [[]]"
| "split_dot (c # cs) =
     (if c = CHR ''.'' then [] # split_dot cs
      else (case split_dot cs of
              [] \<Rightarrow> [[c]]
            | part # parts \<Rightarrow> (c # part) # parts))"

definition extractSubdomain :: "string \<Rightarrow> string option" where
  "extractSubdomain h =
     (let parts = split_dot h
      in if length parts \<ge> 3 then Some (parts ! 0) else None)"

definition extractTenantIdentifier :: "request \<Rightarrow> string option" where
  "extractTenantIdentifier req =
     (if str_truthy (params_tenantSlug req) then params_tenantSlug req
      else if str_truthy (params_orgSlug req) then params_orgSlug req
      else
        (let headerTenant =
               (if str_truthy (header_x_tenant_id req) then header_x_tenant_id req
                else header_x_organization_slug req)
         in if str_truthy headerTenant then headerTenant
            else (case host req of
                    None \<Rightarrow> None
                  | Some h \<Rightarrow>
                      if h \<noteq> [] then
                        (let subdomain = extractSubdomain h
                         in if str_truthy subdomain \<and> subdomain \<noteq> Some ''www''
                               \<and> subdomain \<noteq> Some ''api''
                            then subdomain else None)
                      else None)))"

text \<open>
  The resolver as the specification words it: the signals in priority order, the
  first one present wins. The subdomain signal is the leftmost label of a host with at
  least three dot-separated labels (two dots or more), unless that label is \<open>www\<close>
  or \<open>api\<close>.
\<close>

definition leftmost_label :: "string \<Rightarrow> string" where
  "leftmost_label h = takeWhile (\<lambda>c. c \<noteq> CHR ''.'') h"

definition label_count :: "string \<Rightarrow> nat" where
  "label_count h = Suc (length (filter (\<lambda>c. c = CHR ''.'') h))"

definition subdomain_signal :: "string option \<Rightarrow> string option" where
  "subdomain_signal h =
     (case h of
        None \<Rightarrow> None
      | Some hostname \<Rightarrow>
          if label_count hostname \<ge> 3 \<and> leftmost_label hostname \<noteq> ''www''
             \<and> leftmost_label hostname \<noteq> ''api''
          then Some (leftmost_label hostname) else None)"

fun first_present :: "string option list \<Rightarrow> string option" where
  "first_present [] = None"
| "first_present (signal # signals) =
     (if str_truthy signal then signal else first_present signals)"

definition resolve_tenant_spec :: "request \<Rightarrow> string option" where
  "resolve_tenant_spec req =
     first_present
       [params_tenantSlug req, params_orgSlug req,
        header_x_tenant_id req, header_x_organization_slug req,
        subdomain_signal (host req)]"

subsection \<open>Authorization context and guards\<close>

record user =
  user_id :: string
  systemRole :: string

text \<open>
  Modelled from the spec: the User model, whose method \<^verbatim>\<open>isSuperAdmin\<close> the
  middleware calls, is not among the sources. The spec and the guide name the system
  roles \<open>super_admin\<close>, \<open>system_admin\<close> and \<open>user\<close>, the first being the top
  privilege tier.
\<close>

definition isSuperAdmin :: "user \<Rightarrow> bool" where
  "isSuperAdmin u = (systemRole u = ''super_admin'')"

text \<open>
  The responses of the middleware, by their \<^verbatim>\<open>code\<close>; \<open>AuthenticationRequired\<close>
  and \<open>GuardError\<close> are the errors handed to \<^verbatim>\<open>next(error)\<close>.
\<close>

datatype denial =
    AuthenticationRequired
  | TENANT_REQUIRED
  | ORGANIZATION_NOT_FOUND
  | ORGANIZATION_ACCESS_DENIED
  | TENANT_CONTEXT_REQUIRED
  | INSUFFICIENT_ORG_PERMISSIONS
  | GuardError error

text \<open>What the middleware leaves on the request for the guards.\<close>

record tenant_context =
  req_user :: "user option"
  tenant :: "organization option"
  orgMembership :: "membership option"
  orgRole :: "role option"

text \<open>\<^verbatim>\<open>OrganizationUser.findOne\<close> for an active membership of the pair.\<close>

definition find_active_membership ::
  "membership list \<Rightarrow> string \<Rightarrow> string \<Rightarrow> membership option" where
  "find_active_membership rows uid oid =
     find (\<lambda>r. userId r = uid \<and> organizationId r = oid \<and> isActive r) rows"

definition checkUserAccess :: "membership list \<Rightarrow> user \<Rightarrow> string \<Rightarrow> bool" where
  "checkUserAccess rows u oid =
     (if isSuperAdmin u then True
      else find_active_membership rows (user_id u) oid \<noteq> None)"

definition tenantMiddleware ::
  "organization list \<Rightarrow> membership list \<Rightarrow> user option \<Rightarrow> request
     \<Rightarrow> denial + tenant_context" where
  "tenantMiddleware orgs rows authenticated req =
     (case authenticated of
        None \<Rightarrow> Inl AuthenticationRequired
      | Some u \<Rightarrow>
          (let tenantSlug = extractTenantIdentifier req
           in if \<not> str_truthy tenantSlug then Inl TENANT_REQUIRED
              else
                (case find (\<lambda>organization. Some (slug organization) = tenantSlug
                                          \<and> org_isActive organization) orgs of
                   None \<Rightarrow> Inl ORGANIZATION_NOT_FOUND
                 | Some organization \<Rightarrow>
                     if \<not> checkUserAccess rows u (org_id organization)
                     then Inl ORGANIZATION_ACCESS_DENIED
                     else
                       (let found = find_active_membership rows (user_id u) (org_id organization)
                        in Inr \<lparr> req_user = Some u,
                                 tenant = Some organization,
                                 orgMembership = found,
                                 orgRole = map_option role found \<rparr>))))"

text \<open>\<open>Inr ()\<close> is the call of \<^verbatim>\<open>next()\<close>: the guard passes.\<close>

definition requireOrgRole :: "role list \<Rightarrow> tenant_context \<Rightarrow> denial + unit" where
  "requireOrgRole allowedRoles ctx =
     (case (tenant ctx, req_user ctx) of
        (Some organization, Some u) \<Rightarrow>
          if isSuperAdmin u then Inr ()
          else (case orgRole ctx of
                  None \<Rightarrow> Inl INSUFFICIENT_ORG_PERMISSIONS
                | Some r \<Rightarrow>
                    if r \<in> set allowedRoles then Inr ()
                    else Inl INSUFFICIENT_ORG_PERMISSIONS)
      | _ \<Rightarrow> Inl TENANT_CONTEXT_REQUIRED)"

definition requireOrgPermission :: "string \<Rightarrow> string \<Rightarrow> tenant_context \<Rightarrow> denial + unit" where
  "requireOrgPermission resource action ctx =
     (case (tenant ctx, req_user ctx, orgMembership ctx) of
        (Some organization, Some u, Some m) \<Rightarrow>
          if isSuperAdmin u then Inr ()
          else (case hasPermission m resource action of
                  Inl e \<Rightarrow> Inl (GuardError e)
                | Inr True \<Rightarrow> Inr ()
                | Inr False \<Rightarrow> Inl INSUFFICIENT_ORG_PERMISSIONS)
      | _ \<Rightarrow> Inl TENANT_CONTEXT_REQUIRED)"

section \<open>Predicates and sample data of the statements\<close>

text \<open>The stored cell \<open>t[resource][action]\<close> is an own property and exactly \<^verbatim>\<open>true\<close>.\<close>

definition granted :: "(string \<times> jsval) list \<Rightarrow> string \<Rightarrow> string \<Rightarrow> bool" where
  "granted t resource action =
     (case map_of t resource of
        Some (JObj cells) \<Rightarrow> map_of cells action = Some (JBool True)
      | _ \<Rightarrow> False)"

text \<open>Every own property of the map holds an object.\<close>

definition all_objects :: "(string \<times> jsval) list \<Rightarrow> bool" where
  "all_objects t =
     list_all (\<lambda>k. case map_of t k of Some (JObj cells) \<Rightarrow> True | _ \<Rightarrow> False) (map fst t)"

text \<open>
  A permission map whose resources are mapped to objects of cells, no resource being
  named like a member of \<^verbatim>\<open>Object.prototype\<close>.
\<close>

definition plain_permissions :: "(string \<times> jsval) list \<Rightarrow> bool" where
  "plain_permissions perms =
     (all_objects perms \<and> list_all (\<lambda>k. k \<notin> set object_prototype_keys) (map fst perms))"

text \<open>
  The scenario of the role-change property: promotion to \<open>manager\<close>, the grant of
  \<open>reports.export\<close>, demotion to \<open>viewer\<close>.
\<close>

definition promote_grant_demote :: "membership \<Rightarrow> error + membership" where
  "promote_grant_demote m =
     (case update_role Manager m of
        Inl e \<Rightarrow> Inl e
      | Inr promoted \<Rightarrow>
          (case grantPermission ''reports'' ''export'' promoted of
             Inl e \<Rightarrow> Inl e
           | Inr granted_member \<Rightarrow> update_role Viewer granted_member))"

definition viewer_member :: membership where
  "viewer_member =
     \<lparr> m_id = ''m7'', userId = ''u7'', organizationId = ''o1'', role = Viewer,
       permissions = Some (role_table Viewer), isActive = True \<rparr>"

definition demoted_member :: membership where
  "demoted_member =
     \<lparr> m_id = ''m7'', userId = ''u7'', organizationId = ''o1'', role = Viewer,
       permissions = Some
         [users_row True True False True, organizations_row True False False False,
          reports_row True True True, billing_row False False, api_row True False],
       isActive = True \<rparr>"

definition owner_member :: membership where
  "owner_member =
     \<lparr> m_id = ''m1'', userId = ''u1'', organizationId = ''o1'', role = Owner,
       permissions = Some (role_table Owner), isActive = True \<rparr>"

definition second_owner :: membership where
  "second_owner =
     \<lparr> m_id = ''m2'', userId = ''u2'', organizationId = ''o1'', role = Owner,
       permissions = Some (role_table Owner), isActive = True \<rparr>"

definition sole_owner :: membership where
  "sole_owner =
     \<lparr> m_id = ''m3'', userId = ''u1'', organizationId = ''o2'', role = Owner,
       permissions = Some (role_table Owner), isActive = True \<rparr>"

definition sample_rows :: "membership list" where
  "sample_rows = [owner_member, second_owner, sole_owner]"

text \<open>
  Around the only active owner of organization \<open>o2\<close>: an owner row that is not
  active and an active row that is no owner, both of the same organization.
\<close>

definition retired_owner :: membership where
  "retired_owner =
     \<lparr> m_id = ''m4'', userId = ''u4'', organizationId = ''o2'', role = Owner,
       permissions = Some (role_table Owner), isActive = False \<rparr>"

definition admin_member :: membership where
  "admin_member =
     \<lparr> m_id = ''m5'', userId = ''u5'', organizationId = ''o2'', role = Admin,
       permissions = Some (role_table Admin), isActive = True \<rparr>"

definition deletion_rows :: "membership list" where
  "deletion_rows = [owner_member, second_owner, sole_owner, retired_owner, admin_member]"

definition created_owner :: membership where
  "created_owner =
     \<lparr> m_id = ''m1'', userId = ''u1'', organizationId = ''o1'', role = Owner,
       permissions = Some permissions_defaultValue, isActive = True \<rparr>"

definition owner_values :: create_values where
  "owner_values =
     \<lparr> v_userId = ''u1'', v_organizationId = ''o1'', v_role = Some Owner,
       v_permissions = None, v_isActive = None \<rparr>"

definition root_org :: organization where
  "root_org =
     \<lparr> org_id = ''r'', name = ''Root'', slug = ''root'', parentId = None,
       org_isActive = True \<rparr>"

definition mid_org :: organization where
  "mid_org =
     \<lparr> org_id = ''m'', name = ''Mid'', slug = ''mid'', parentId = Some ''r'',
       org_isActive = True \<rparr>"

definition leaf_org :: organization where
  "leaf_org =
     \<lparr> org_id = ''l'', name = ''Leaf'', slug = ''leaf'', parentId = Some ''m'',
       org_isActive = True \<rparr>"

definition sample_orgs :: "organization list" where
  "sample_orgs = [root_org, mid_org, leaf_org]"

text \<open>An organization stored as its own parent: the shortest cycle.\<close>

definition looped_org :: organization where
  "looped_org =
     \<lparr> org_id = ''a'', name = ''Acme'', slug = ''acme'', parentId = Some ''a'',
       org_isActive = True \<rparr>"

definition acme_request :: request where
  "acme_request =
     \<lparr> params_tenantSlug = Some ''acme'', params_orgSlug = None,
       header_x_tenant_id = Some ''other-co'', header_x_organization_slug = None,
       host = Some ''localhost'' \<rparr>"

definition platform_admin :: user where
  "platform_admin = \<lparr> user_id = ''u0'', systemRole = ''super_admin'' \<rparr>"

definition bypass_context :: tenant_context where
  "bypass_context =
     \<lparr> req_user = Some platform_admin, tenant = Some root_org,
       orgMembership = None, orgRole = None \<rparr>"

definition root_request :: request where
  "root_request =
     \<lparr> params_tenantSlug = Some ''root'', params_orgSlug = None,
       header_x_tenant_id = None, header_x_organization_slug = None,
       host = None \<rparr>"


section \<open>Permission matrix: proofs\<close>

lemmas row_defs =
  users_row_def organizations_row_def reports_row_def billing_row_def api_row_def

lemma role_table_simps:
  "role_table Owner =
     [users_row True True True True, organizations_row True True True True,
      reports_row True True True, billing_row True True, api_row True True]"
  "role_table Admin =
     [users_row True True True True, organizations_row True True False True,
      reports_row True True True, billing_row True False, api_row True True]"
  "role_table Manager =
     [users_row True True False True, organizations_row True False False False,
      reports_row True True True, billing_row False False, api_row True False]"
  "role_table Employee =
     [users_row True False False False, organizations_row True False False False,
      reports_row True False False, billing_row False False, api_row False False]"
  "role_table Viewer =
     [users_row True False False False, organizations_row True False False False,
      reports_row True False False, billing_row False False, api_row False False]"
  "role_table Guest =
     [users_row False False False False, organizations_row True False False False,
      reports_row False False False, billing_row False False, api_row False False]"
  by (simp_all add: role_table_def getRolePermissions_def obj_get_def rolePermissions_def)

lemma getRolePermissions_role_name: "getRolePermissions (role_name r) = JObj (role_table r)"
  by (cases r)
     (simp_all add: role_table_simps,
      simp_all add: getRolePermissions_def obj_get_def rolePermissions_def)

text \<open>
  Outside the six role names and the names a plain object inherits, the lookup falls
  back to the \<open>guest\<close> table.
\<close>

lemma getRolePermissions_unknown:
  assumes "role_key \<notin> set (map role_name [Owner, Admin, Manager, Employee, Viewer, Guest])"
    and "role_key \<notin> set object_prototype_keys"
  shows "getRolePermissions role_key = JObj (role_table Guest)"
proof -
  have "map_of rolePermissions role_key = None"
    using assms(1) by (simp add: rolePermissions_def)
  then have "obj_get rolePermissions role_key = JUndefined"
    using assms(2) by (simp add: obj_get_def)
  then show ?thesis
    using getRolePermissions_role_name [of Guest]
    by (simp add: getRolePermissions_def)
qed

text \<open>
  C8. For an input that is none of the six role values the lookup is meant to return
  the \<open>guest\<close> table. At the input \<open>constructor\<close>, which is no role value, it
  returns the member of that name inherited from \<^verbatim>\<open>Object.prototype\<close> instead, and
  that is not the \<open>guest\<close> table.
\<close>

theorem getRolePermissions_inherited_key:
  "getRolePermissions ''constructor'' = JBuiltin ''constructor''
   \<and> getRolePermissions ''constructor'' \<noteq> getRolePermissions ''guest''"
  by (simp add: getRolePermissions_def obj_get_def rolePermissions_def
      object_prototype_keys_def)

lemma granted_Cons:
  "granted ((k, JObj cells) # t) resource action =
     (if resource = k then map_of cells action = Some (JBool True)
      else granted t resource action)"
  by (simp add: granted_def)

lemma granted_Nil: "granted [] resource action = False"
  by (simp add: granted_def)

lemma granted_owner:
  "granted (role_table Owner) resource action \<longleftrightarrow>
     resource = ''users'' \<and> (action = ''read'' \<or> action = ''write''
        \<or> action = ''delete'' \<or> action = ''invite'') \<or>
     resource = ''organizations'' \<and> (action = ''read'' \<or> action = ''write''
        \<or> action = ''delete'' \<or> action = ''settings'') \<or>
     resource = ''reports'' \<and> (action = ''read'' \<or> action = ''write'' \<or> action = ''export'') \<or>
     resource = ''billing'' \<and> (action = ''read'' \<or> action = ''write'') \<or>
     resource = ''api'' \<and> (action = ''read'' \<or> action = ''write'')"
  by (simp add: role_table_simps row_defs granted_Cons granted_Nil)

lemma granted_admin:
  "granted (role_table Admin) resource action \<longleftrightarrow>
     resource = ''users'' \<and> (action = ''read'' \<or> action = ''write''
        \<or> action = ''delete'' \<or> action = ''invite'') \<or>
     resource = ''organizations'' \<and> (action = ''read'' \<or> action = ''write''
        \<or> action = ''settings'') \<or>
     resource = ''reports'' \<and> (action = ''read'' \<or> action = ''write'' \<or> action = ''export'') \<or>
     resource = ''billing'' \<and> action = ''read'' \<or>
     resource = ''api'' \<and> (action = ''read'' \<or> action = ''write'')"
  by (simp add: role_table_simps row_defs granted_Cons granted_Nil)

lemma granted_manager:
  "granted (role_table Manager) resource action \<longleftrightarrow>
     resource = ''users'' \<and> (action = ''read'' \<or> action = ''write'' \<or> action = ''invite'') \<or>
     resource = ''organizations'' \<and> action = ''read'' \<or>
     resource = ''reports'' \<and> (action = ''read'' \<or> action = ''write'' \<or> action = ''export'') \<or>
     resource = ''api'' \<and> action = ''read''"
  by (simp add: role_table_simps row_defs granted_Cons granted_Nil)

lemma granted_employee:
  "granted (role_table Employee) resource action \<longleftrightarrow>
     resource = ''users'' \<and> action = ''read'' \<or>
     resource = ''organizations'' \<and> action = ''read'' \<or>
     resource = ''reports'' \<and> action = ''read''"
  by (simp add: role_table_simps row_defs granted_Cons granted_Nil)

lemma granted_viewer:
  "granted (role_table Viewer) resource action \<longleftrightarrow>
     resource = ''users'' \<and> action = ''read'' \<or>
     resource = ''organizations'' \<and> action = ''read'' \<or>
     resource = ''reports'' \<and> action = ''read''"
  by (simp add: role_table_simps row_defs granted_Cons granted_Nil)

lemma granted_guest:
  "granted (role_table Guest) resource action \<longleftrightarrow>
     resource = ''organizations'' \<and> action = ''read''"
  by (simp add: role_table_simps row_defs granted_Cons granted_Nil)

lemmas granted_role =
  granted_owner granted_admin granted_manager granted_employee granted_viewer granted_guest

lemma granted_next_role:
  "granted (role_table Guest) x y \<Longrightarrow> granted (role_table Viewer) x y"
  "granted (role_table Viewer) x y \<Longrightarrow> granted (role_table Employee) x y"
  "granted (role_table Employee) x y \<Longrightarrow> granted (role_table Manager) x y"
  "granted (role_table Manager) x y \<Longrightarrow> granted (role_table Admin) x y"
  "granted (role_table Admin) x y \<Longrightarrow> granted (role_table Owner) x y"
  unfolding granted_role by (elim disjE conjE; simp)+

text \<open>
  C10. The six default tables are monotone along the privilege order: a cell that is
  true in the table of a role \<open>s\<close> is true in the table of every more privileged role
  \<open>r\<close>; the \<open>viewer\<close> and \<open>employee\<close> tables are the same table.
\<close>

theorem role_tables_monotone:
  "(privilege s < privilege r \<longrightarrow> granted (role_table s) resource action
      \<longrightarrow> granted (role_table r) resource action)
   \<and> role_table Viewer = role_table Employee"
proof
  show "privilege s < privilege r \<longrightarrow> granted (role_table s) resource action
      \<longrightarrow> granted (role_table r) resource action"
    by (cases s; cases r; simp; blast intro: granted_next_role)
  show "role_table Viewer = role_table Employee"
    by (simp add: role_table_simps)
qed

theorem role_tables_monotone_witness:
  "privilege Viewer < privilege Manager \<and> granted (role_table Viewer) ''reports'' ''read''
   \<and> granted (role_table Manager) ''reports'' ''read''"
  using role_tables_monotone [of Viewer Manager "''reports''" "''read''"]
  by (simp add: granted_viewer granted_employee)

section \<open>Membership: proofs\<close>

lemma hasPermission_true_iff:
  "hasPermission m resource action = Inr True
     \<longleftrightarrow> granted (permissions_or_empty m) resource action"
  by (auto simp: hasPermission_def granted_def obj_get_def Let_def
      split: option.splits jsval.splits if_splits)

lemma hasPermission_absent_resource:
  assumes "map_of (permissions_or_empty m) resource = None"
    and "resource \<notin> set object_prototype_keys"
  shows "hasPermission m resource action = Inr False"
  using assms by (simp add: hasPermission_def obj_get_def)

lemma hasPermission_absent_action:
  assumes "map_of (permissions_or_empty m) resource = Some (JObj cells)"
    and "map_of cells action = None"
  shows "hasPermission m resource action = Inr False"
  using assms by (simp add: hasPermission_def obj_get_def)

lemma hasPermission_null_map:
  assumes "permissions m = None" and "resource \<notin> set object_prototype_keys"
  shows "hasPermission m resource action = Inr False"
  using assms by (simp add: hasPermission_def obj_get_def permissions_or_empty_def)

text \<open>The one way the lookup throws: a built-in function found under the resource key.\<close>

lemma get_is_true_throws:
  "js_truthy v \<Longrightarrow>
     get_is_true v action = Inl e \<longleftrightarrow>
       e = TypeError \<and> (action = ''caller'' \<or> action = ''arguments'') \<and>
       (\<exists>b. v = JBuiltin b \<and> b \<noteq> ''__proto__'')"
  by (cases v) auto

lemma hasPermission_throws_iff:
  "hasPermission m resource action = Inl e \<longleftrightarrow>
     e = TypeError \<and> (action = ''caller'' \<or> action = ''arguments'') \<and>
     (\<exists>b. obj_get (permissions_or_empty m) resource = JBuiltin b \<and> b \<noteq> ''__proto__'')"
  by (auto simp: hasPermission_def Let_def get_is_true_throws)

text \<open>
  C9. \<open>hasPermission\<close> is meant never to throw and to answer false for an absent
  key. For the resource key \<open>constructor\<close>, absent from the owner's permission map,
  and the action key \<open>caller\<close> it throws a TypeError: the resource lookup finds the
  inherited built-in function, whose \<open>caller\<close> accessor throws.
\<close>

theorem hasPermission_inherited_throws:
  "hasPermission owner_member ''constructor'' ''caller'' = Inl TypeError"
  by (simp add: hasPermission_def owner_member_def permissions_or_empty_def role_table_simps
      row_defs obj_get_def object_prototype_keys_def)

subsection \<open>Creation\<close>

lemma create_without_permissions:
  "v_permissions vals = None \<Longrightarrow>
     map_sum id permissions (create new_id vals) = Inr (Some permissions_defaultValue)"
  by (simp add: create_def build_def beforeCreate_def permissions_or_empty_def
      permissions_defaultValue_def Let_def)

lemma create_null_permissions:
  "v_permissions vals = Some None \<Longrightarrow> create new_id vals = Inl ValidationError"
  by (simp add: create_def build_def Let_def)

lemma create_empty_permissions:
  "v_permissions vals = Some (Some []) \<Longrightarrow>
     map_sum id permissions (create new_id vals)
       = Inr (Some (role_table (case v_role vals of None \<Rightarrow> Employee | Some r \<Rightarrow> r)))"
  by (simp add: create_def build_def beforeCreate_def permissions_or_empty_def Let_def)

lemma beforeCreate_fills:
  "permissions orgUser = None \<or> permissions orgUser = Some [] \<Longrightarrow>
     permissions (beforeCreate orgUser) = Some (role_table (role orgUser))"
  by (auto simp: beforeCreate_def permissions_or_empty_def)

text \<open>
  C3. A membership created without permissions is meant to store the default table
  of its role. Created with role \<open>owner\<close> and no permissions, the stored map is the
  column's all-false default and not the \<open>owner\<close> table: the instance reaches the
  beforeCreate hook with the column default already in place, so the hook's test for a
  missing or empty map fails.
\<close>

theorem create_keeps_column_default:
  "create ''m1'' owner_values = Inr created_owner
   \<and> permissions created_owner = Some permissions_defaultValue
   \<and> permissions created_owner \<noteq> Some (role_table Owner)"
  by (simp add: create_def build_def beforeCreate_def owner_values_def created_owner_def
      permissions_or_empty_def permissions_defaultValue_def role_table_simps row_defs Let_def)

subsection \<open>Deletion\<close>

lemma role_name_owner: "role_name x = ''owner'' \<longleftrightarrow> x = Owner"
  by (cases x) simp_all

lemma count_other_owners_pos:
  "0 < count_other_owners orgUser rows \<longleftrightarrow>
     (\<exists>r \<in> set rows. organizationId r = organizationId orgUser \<and> role r = Owner
         \<and> isActive r \<and> m_id r \<noteq> m_id orgUser)"
  by (simp add: count_other_owners_def filter_empty_conv role_name_owner) blast

text \<open>
  C5. Deleting an owner membership: when the table holds no other row that is an
  active owner of the same organization, the deletion fails with
  \<open>LastOwnerViolation\<close> and the table is unchanged; when it holds such a row, the
  deletion succeeds and exactly the rows with the deleted id leave the table. Rows of
  other organizations, rows that are not active and rows with another role do not
  count.
\<close>

theorem last_owner_guard:
  assumes "role orgUser = Owner"
  shows "(\<not> (\<exists>r \<in> set rows. organizationId r = organizationId orgUser \<and> role r = Owner
                \<and> isActive r \<and> m_id r \<noteq> m_id orgUser) \<longrightarrow>
            destroy orgUser rows = (Inl LastOwnerViolation, rows))
       \<and> ((\<exists>r \<in> set rows. organizationId r = organizationId orgUser \<and> role r = Owner
                \<and> isActive r \<and> m_id r \<noteq> m_id orgUser) \<longrightarrow>
            fst (destroy orgUser rows) = Inr ()
            \<and> set (snd (destroy orgUser rows)) = {r \<in> set rows. m_id r \<noteq> m_id orgUser})"
proof -
  let ?other = "\<exists>r \<in> set rows. organizationId r = organizationId orgUser \<and> role r = Owner
                \<and> isActive r \<and> m_id r \<noteq> m_id orgUser"
  have none: "count_other_owners orgUser rows = 0" if "\<not> ?other"
  proof -
    from that have "\<not> 0 < count_other_owners orgUser rows"
      unfolding count_other_owners_pos by blast
    then show ?thesis by simp
  qed
  have some: "0 < count_other_owners orgUser rows" if "?other"
    using that unfolding count_other_owners_pos by blast
  show ?thesis
  proof (intro conjI impI)
    assume "\<not> ?other"
    from none [OF this] assms
    show "destroy orgUser rows = (Inl LastOwnerViolation, rows)"
      by (simp add: destroy_def beforeDestroy_def)
  next
    assume "?other"
    from some [OF this] assms
    show "fst (destroy orgUser rows) = Inr ()"
      by (simp add: destroy_def beforeDestroy_def)
  next
    assume "?other"
    from some [OF this] assms
    show "set (snd (destroy orgUser rows)) = {r \<in> set rows. m_id r \<noteq> m_id orgUser}"
      by (simp add: destroy_def beforeDestroy_def)
  qed
qed

lemmas deletion_rows_defs =
  deletion_rows_def owner_member_def second_owner_def sole_owner_def retired_owner_def
  admin_member_def

theorem last_owner_guard_witness:
  "role sole_owner = Owner
   \<and> retired_owner \<in> set deletion_rows \<and> admin_member \<in> set deletion_rows
   \<and> organizationId retired_owner = organizationId sole_owner
   \<and> organizationId admin_member = organizationId sole_owner
   \<and> destroy sole_owner deletion_rows = (Inl LastOwnerViolation, deletion_rows)
   \<and> role owner_member = Owner
   \<and> second_owner \<in> set deletion_rows
   \<and> organizationId second_owner = organizationId owner_member
   \<and> role second_owner = Owner \<and> isActive second_owner
   \<and> m_id second_owner \<noteq> m_id owner_member
   \<and> fst (destroy owner_member deletion_rows) = Inr ()
   \<and> owner_member \<notin> set (snd (destroy owner_member deletion_rows))
   \<and> second_owner \<in> set (snd (destroy owner_member deletion_rows))"
proof -
  have a: "role sole_owner = Owner" "role owner_member = Owner"
    by (simp_all add: sole_owner_def owner_member_def)
  have b: "\<not> (\<exists>r \<in> set deletion_rows. organizationId r = organizationId sole_owner
                \<and> role r = Owner \<and> isActive r \<and> m_id r \<noteq> m_id sole_owner)"
    by (simp add: deletion_rows_defs)
  have c: "\<exists>r \<in> set deletion_rows. organizationId r = organizationId owner_member
                \<and> role r = Owner \<and> isActive r \<and> m_id r \<noteq> m_id owner_member"
    by (simp add: deletion_rows_defs)
  have d: "retired_owner \<in> set deletion_rows" "admin_member \<in> set deletion_rows"
    "second_owner \<in> set deletion_rows"
    "organizationId retired_owner = organizationId sole_owner"
    "organizationId admin_member = organizationId sole_owner"
    "organizationId second_owner = organizationId owner_member"
    "role second_owner = Owner" "isActive second_owner"
    "m_id second_owner \<noteq> m_id owner_member"
    by (simp_all add: deletion_rows_defs)
  from last_owner_guard [OF a(1), of deletion_rows] b
  have e: "destroy sole_owner deletion_rows = (Inl LastOwnerViolation, deletion_rows)"
    by blast
  from last_owner_guard [OF a(2), of deletion_rows] c
  have f: "fst (destroy owner_member deletion_rows) = Inr ()"
    and g: "set (snd (destroy owner_member deletion_rows))
              = {r \<in> set deletion_rows. m_id r \<noteq> m_id owner_member}"
    by blast+
  have h: "owner_member \<notin> set (snd (destroy owner_member deletion_rows))"
    "second_owner \<in> set (snd (destroy owner_member deletion_rows))"
    unfolding g using d(3,9) by simp_all
  from a d e f h show ?thesis by simp
qed


section \<open>Organization hierarchy: proofs\<close>

lemma ancestor_found:
  "ancestor_of orgs a c \<Longrightarrow> descendant_walk orgs (Some c) (Some a) = Some True"
proof (induction rule: ancestor_of.induct)
  case (ancestor_parent c a orgs)
  then show ?case by (subst descendant_walk.simps) simp
next
  case (ancestor_step c orgs p a)
  then show ?case by (subst descendant_walk.simps) simp
qed

text \<open>
  C7. \<open>validateHierarchy\<close> rejects (returns false) when the new parent is the child
  itself, when the parent organization does not exist, and when the child is already
  an ancestor of the parent.
\<close>

theorem validateHierarchy_rejects:
  "(new_parentId = childId \<longrightarrow> validateHierarchy orgs new_parentId childId = Some False)
   \<and> (findByPk orgs new_parentId = None \<longrightarrow>
        validateHierarchy orgs new_parentId childId = Some False)
   \<and> (findByPk orgs new_parentId = Some parent \<longrightarrow> ancestor_of orgs child parent \<longrightarrow>
        validateHierarchy orgs new_parentId (Some child) = Some False)"
  by (simp add: validateHierarchy_def isDescendantOf_def ancestor_found)

lemma sample_findByPk:
  "findByPk sample_orgs (Some ''l'') = Some leaf_org"
  "findByPk sample_orgs (Some ''m'') = Some mid_org"
  "findByPk sample_orgs (Some ''r'') = Some root_org"
  "findByPk sample_orgs (Some ''x'') = None"
  by (simp_all add: findByPk_def sample_orgs_def root_org_def mid_org_def leaf_org_def)

lemma sample_parentId:
  "parentId leaf_org = Some ''m''" "parentId mid_org = Some ''r''" "parentId root_org = None"
  by (simp_all add: root_org_def mid_org_def leaf_org_def)

lemma sample_ancestor: "ancestor_of sample_orgs ''r'' leaf_org"
proof -
  have "ancestor_of sample_orgs ''r'' mid_org"
    by (rule ancestor_parent) (simp_all add: sample_parentId)
  then show ?thesis
    by (rule ancestor_step [rotated 2]) (simp_all add: sample_parentId sample_findByPk)
qed

theorem validateHierarchy_rejects_witness:
  "validateHierarchy sample_orgs (Some ''l'') (Some ''l'') = Some False
   \<and> findByPk sample_orgs (Some ''x'') = None
   \<and> validateHierarchy sample_orgs (Some ''x'') (Some ''l'') = Some False
   \<and> findByPk sample_orgs (Some ''l'') = Some leaf_org
   \<and> ancestor_of sample_orgs ''r'' leaf_org
   \<and> validateHierarchy sample_orgs (Some ''l'') (Some ''r'') = Some False"
  using validateHierarchy_rejects [of "Some ''l''" "Some ''l''" sample_orgs leaf_org "''r''"]
    validateHierarchy_rejects [of "Some ''x''" "Some ''l''" sample_orgs leaf_org "''r''"]
    validateHierarchy_rejects [of "Some ''l''" "Some ''r''" sample_orgs leaf_org "''r''"]
    sample_ancestor
  by (simp add: sample_findByPk)

lemma walk_chain:
  "parent_chain orgs c chain \<Longrightarrow>
   hierarchy_walk orgs (Some c) acc
     = Some (rev (map (\<lambda>x. (org_id x, name x, slug x)) chain) @ acc)"
proof (induction arbitrary: acc rule: parent_chain.induct)
  case (chain_root c orgs)
  then show ?case
    by (subst hierarchy_walk.simps, simp, subst hierarchy_walk.simps, simp)
next
  case (chain_dangling c orgs)
  then show ?case
    by (subst hierarchy_walk.simps, simp, subst hierarchy_walk.simps, simp)
next
  case (chain_step c orgs p chain)
  then show ?case
    by (subst hierarchy_walk.simps) simp
qed

lemma walk_returns_chain:
  assumes "hierarchy_walk orgs current acc = Some h"
  shows "case current of
        None \<Rightarrow> h = acc
      | Some c \<Rightarrow> \<exists>chain. parent_chain orgs c chain
                    \<and> h = rev (map (\<lambda>x. (org_id x, name x, slug x)) chain) @ acc"
proof (rule hierarchy_walk.raw_induct [OF _ assms])
  fix walk :: "organization list \<Rightarrow> organization option \<Rightarrow> hierarchy_entry list
     \<Rightarrow> hierarchy_entry list option"
  fix orgs :: "organization list" and current :: "organization option"
    and acc h :: "hierarchy_entry list"
  assume ih: "\<And>os cur a y. walk os cur a = Some y \<Longrightarrow>
     (case cur of None \<Rightarrow> y = a
      | Some c \<Rightarrow> \<exists>chain. parent_chain os c chain
                    \<and> y = rev (map (\<lambda>x. (org_id x, name x, slug x)) chain) @ a)"
  assume body: "(case current of None \<Rightarrow> Some acc
        | Some c \<Rightarrow>
            walk orgs
             (if str_truthy (parentId c) then findByPk orgs (parentId c) else None)
             ((org_id c, name c, slug c) # acc)) = Some h"
  show "case current of
        None \<Rightarrow> h = acc
      | Some c \<Rightarrow> \<exists>chain. parent_chain orgs c chain
                    \<and> h = rev (map (\<lambda>x. (org_id x, name x, slug x)) chain) @ acc"
  proof (cases current)
    case None
    with body show ?thesis by simp
  next
    case (Some c)
    let ?next = "if str_truthy (parentId c) then findByPk orgs (parentId c) else None"
    from body Some have rec: "walk orgs ?next ((org_id c, name c, slug c) # acc) = Some h"
      by simp
    note step = ih [OF rec]
    show ?thesis
    proof (cases ?next)
      case None
      with step have h: "h = (org_id c, name c, slug c) # acc" by simp
      from None have "parent_chain orgs c [c]"
        by (auto intro: parent_chain.intros split: if_splits)
      with h Some show ?thesis by (auto intro!: exI [of _ "[c]"])
    next
      case (Some p)
      with step obtain chain where ch: "parent_chain orgs p chain"
        and h: "h = rev (map (\<lambda>x. (org_id x, name x, slug x)) chain)
                      @ (org_id c, name c, slug c) # acc"
        by auto
      from Some have "str_truthy (parentId c)" "findByPk orgs (parentId c) = Some p"
        by (auto split: if_splits)
      with ch have "parent_chain orgs c (c # chain)" by (simp add: chain_step)
      with h \<open>current = Some c\<close> show ?thesis by (auto intro!: exI [of _ "c # chain"])
    qed
  qed
qed

lemma getFullHierarchy_iff_chain:
  "getFullHierarchy orgs this = Some h \<longleftrightarrow>
     (\<exists>chain. parent_chain orgs this chain
        \<and> h = rev (map (\<lambda>x. (org_id x, name x, slug x)) chain))"
  using walk_chain [of orgs this _ "[]"] walk_returns_chain [of orgs "Some this" "[]" h]
  by (auto simp: getFullHierarchy_def)

lemma no_chain_looped:
  "parent_chain orgs c chain \<Longrightarrow> orgs = [looped_org] \<Longrightarrow> c \<noteq> looped_org"
  by (induction rule: parent_chain.induct)
     (auto simp: looped_org_def findByPk_def split: if_splits)

text \<open>
  C4, as the claim states it, fails: for an organization stored as its own parent the
  walk of \<open>getFullHierarchy\<close> never returns; it neither stops at a depth bound nor
  fails with an error.
\<close>

theorem getFullHierarchy_cycle_diverges: "getFullHierarchy [looped_org] looped_org = None"
proof -
  have "getFullHierarchy [looped_org] looped_org \<noteq> Some h" for h
    using no_chain_looped [of "[looped_org]" looped_org]
    by (auto simp: getFullHierarchy_iff_chain)
  then show ?thesis by (meson not_Some_eq)
qed

text \<open>
  C4, amended. \<open>getFullHierarchy\<close> returns exactly when the stored parent chain of
  the organization ends (at a row without parent reference, or at a reference to a
  missing row), and then it returns the chain ordered from the root to the
  organization itself. There is no depth bound: on a chain that does not end the walk
  does not return.
\<close>

theorem getFullHierarchy_chain:
  "getFullHierarchy orgs this = Some h \<longleftrightarrow>
     (\<exists>chain. parent_chain orgs this chain
        \<and> h = rev (map (\<lambda>x. (org_id x, name x, slug x)) chain))"
  by (rule getFullHierarchy_iff_chain)

lemma sample_chain: "parent_chain sample_orgs leaf_org [leaf_org, mid_org, root_org]"
proof -
  have "parent_chain sample_orgs root_org [root_org]"
    by (rule chain_root) (simp add: sample_parentId)
  then have "parent_chain sample_orgs mid_org [mid_org, root_org]"
    by (rule chain_step [rotated 2]) (simp_all add: sample_parentId sample_findByPk)
  then show ?thesis
    by (rule chain_step [rotated 2]) (simp_all add: sample_parentId sample_findByPk)
qed

theorem getFullHierarchy_chain_witness:
  "parent_chain sample_orgs leaf_org [leaf_org, mid_org, root_org]
   \<and> getFullHierarchy sample_orgs leaf_org
       = Some [(''r'', ''Root'', ''root''), (''m'', ''Mid'', ''mid''), (''l'', ''Leaf'', ''leaf'')]"
proof -
  have "getFullHierarchy sample_orgs leaf_org
      = Some (rev (map (\<lambda>x. (org_id x, name x, slug x)) [leaf_org, mid_org, root_org]))"
    using getFullHierarchy_chain [of sample_orgs leaf_org] sample_chain by blast
  then show ?thesis
    using sample_chain by (simp add: root_org_def mid_org_def leaf_org_def)
qed

section \<open>Tenant middleware: proofs\<close>

lemma split_dot_nonempty: "split_dot h \<noteq> []"
  by (induction h) (auto split: list.splits)

lemma length_split_dot: "length (split_dot h) = label_count h"
  using split_dot_nonempty
  by (induction h) (auto simp: label_count_def split: list.splits)

lemma first_split_dot: "split_dot h ! 0 = leftmost_label h"
  using split_dot_nonempty
  by (induction h) (auto simp: leftmost_label_def split: list.splits)

lemma extractSubdomain_labels:
  "extractSubdomain h = (if label_count h \<ge> 3 then Some (leftmost_label h) else None)"
  by (simp add: extractSubdomain_def Let_def length_split_dot first_split_dot)

lemma label_count_empty: "label_count [] = 1"
  by (simp add: label_count_def)

text \<open>
  C6. The tenant identifier is the first signal present in the order path parameter,
  header, host subdomain, where the subdomain is the leftmost host label of a host
  with at least three labels and is neither \<open>www\<close> nor \<open>api\<close>; with no signal
  present there is no tenant. A request with path parameter \<open>acme\<close> and header
  \<open>other-co\<close> resolves to \<open>acme\<close>.
\<close>

theorem tenant_priority:
  "extractTenantIdentifier req = resolve_tenant_spec req
   \<and> (params_tenantSlug req = Some ''acme'' \<longrightarrow> header_x_tenant_id req = Some ''other-co''
        \<longrightarrow> extractTenantIdentifier req = Some ''acme'')"
proof
  show "extractTenantIdentifier req = resolve_tenant_spec req"
    by (simp add: extractTenantIdentifier_def resolve_tenant_spec_def subdomain_signal_def
        Let_def extractSubdomain_labels label_count_empty split: option.splits)
  show "params_tenantSlug req = Some ''acme'' \<longrightarrow> header_x_tenant_id req = Some ''other-co''
        \<longrightarrow> extractTenantIdentifier req = Some ''acme''"
    by (simp add: extractTenantIdentifier_def)
qed

theorem tenant_priority_witness:
  "params_tenantSlug acme_request = Some ''acme''
   \<and> header_x_tenant_id acme_request = Some ''other-co''
   \<and> extractTenantIdentifier acme_request = Some ''acme''
   \<and> resolve_tenant_spec acme_request = Some ''acme''"
proof -
  have a: "params_tenantSlug acme_request = Some ''acme''"
    and b: "header_x_tenant_id acme_request = Some ''other-co''"
    by (simp_all add: acme_request_def)
  from tenant_priority [of acme_request] a b
  have "extractTenantIdentifier acme_request = Some ''acme''"
    and "extractTenantIdentifier acme_request = resolve_tenant_spec acme_request"
    by blast+
  with a b show ?thesis by simp
qed

lemma requireOrgPermission_without_membership:
  "orgMembership ctx = None \<Longrightarrow>
     requireOrgPermission resource action ctx = Inl TENANT_CONTEXT_REQUIRED"
  by (simp add: requireOrgPermission_def split: option.splits)

lemma requireOrgPermission_super_admin_member:
  "tenant ctx = Some organization \<Longrightarrow> req_user ctx = Some u \<Longrightarrow> orgMembership ctx = Some m
     \<Longrightarrow> isSuperAdmin u \<Longrightarrow> requireOrgPermission resource action ctx = Inr ()"
  by (simp add: requireOrgPermission_def)

lemma requireOrgRole_super_admin:
  "tenant ctx = Some organization \<Longrightarrow> req_user ctx = Some u \<Longrightarrow> isSuperAdmin u
     \<Longrightarrow> requireOrgRole allowedRoles ctx = Inr ()"
  by (simp add: requireOrgRole_def)

text \<open>
  C2. For a super admin the permission guard is meant to pass for every resource and
  action, also when the context carries no membership. For the super admin
  \<open>platform_admin\<close>, who has no membership row in the organization \<open>root\<close>, the
  context builder grants access and attaches no membership, and the permission guard
  then answers \<open>TENANT_CONTEXT_REQUIRED\<close> instead of passing, while the role guard
  passes on the same context.
\<close>

theorem requireOrgPermission_blocks_bypass:
  "isSuperAdmin platform_admin
   \<and> tenantMiddleware sample_orgs sample_rows (Some platform_admin) root_request
       = Inr bypass_context
   \<and> requireOrgPermission ''reports'' ''read'' bypass_context = Inl TENANT_CONTEXT_REQUIRED
   \<and> requireOrgRole [Owner] bypass_context = Inr ()"
  by (simp add: isSuperAdmin_def platform_admin_def tenantMiddleware_def root_request_def
      extractTenantIdentifier_def sample_orgs_def root_org_def mid_org_def leaf_org_def
      checkUserAccess_def find_active_membership_def sample_rows_def owner_member_def
      second_owner_def sole_owner_def bypass_context_def requireOrgPermission_def
      requireOrgRole_def)


subsection \<open>Role change\<close>

lemma all_objects_iff:
  "all_objects t \<longleftrightarrow> (\<forall>k v. map_of t k = Some v \<longrightarrow> (\<exists>cells. v = JObj cells))"
proof
  assume a: "all_objects t"
  show "\<forall>k v. map_of t k = Some v \<longrightarrow> (\<exists>cells. v = JObj cells)"
  proof (intro allI impI)
    fix k v
    assume kv: "map_of t k = Some v"
    then have "k \<in> fst ` set t" by (metis domI dom_map_of_conv_image_fst)
    with a kv show "\<exists>cells. v = JObj cells"
      by (auto simp: all_objects_def list_all_iff split: jsval.splits)
  qed
next
  assume b: "\<forall>k v. map_of t k = Some v \<longrightarrow> (\<exists>cells. v = JObj cells)"
  have "case map_of t k of Some (JObj cells) \<Rightarrow> True | _ \<Rightarrow> False" if "k \<in> fst ` set t" for k
  proof -
    from that obtain v where "map_of t k = Some v"
      by (metis domD dom_map_of_conv_image_fst)
    moreover from this b obtain cells where "v = JObj cells" by blast
    ultimately show ?thesis by simp
  qed
  then show "all_objects t" by (simp add: all_objects_def list_all_iff)
qed

lemma obj_get_true: "obj_get cells a = JBool True \<longleftrightarrow> map_of cells a = Some (JBool True)"
  by (simp add: obj_get_def split: option.splits)

lemma granted_update:
  "granted (AList.update r (JObj (AList.update a (JBool True) cells)) t) r' a' \<longleftrightarrow>
     (if r' = r then a' = a \<or> map_of cells a' = Some (JBool True) else granted t r' a')"
  by (simp add: granted_def update_conv')

lemma all_objects_update:
  "all_objects t \<Longrightarrow> all_objects (AList.update r (JObj c) t)"
  by (simp add: all_objects_iff update_conv')

lemma dom_update_present:
  "map_of t r = Some v \<Longrightarrow> dom (map_of (AList.update r w t)) = dom (map_of t)"
  by (auto simp: update_conv')

lemma set_cell_true_object:
  assumes "map_of t r = Some (JObj c)"
  shows "set_cell_true t r a = Inr (AList.update r (JObj (AList.update a (JBool True) c)) t)"
  using assms by (simp add: set_cell_true_def)

lemma merge_actions_ok:
  assumes "all_objects merged" and "map_of merged r \<noteq> None"
  shows "\<exists>m'. merge_actions r (JObj cells) keys merged = Inr m' \<and> all_objects m'
           \<and> dom (map_of m') = dom (map_of merged)
           \<and> (\<forall>r' a'. granted m' r' a' \<longleftrightarrow>
                 granted merged r' a'
                 \<or> (r' = r \<and> a' \<in> set keys \<and> map_of cells a' = Some (JBool True)))"
  using assms
proof (induction keys arbitrary: merged)
  case Nil
  then show ?case by simp
next
  case (Cons a keys)
  consider (skip) "map_of cells a \<noteq> Some (JBool True)"
    | (copy) "map_of cells a = Some (JBool True)"
    by blast
  then show ?case
  proof cases
    case skip
    then have "get_is_true (JObj cells) a = Inr False" by (simp add: obj_get_true)
    with Cons.IH [OF Cons.prems] skip show ?thesis by auto
  next
    case copy
    from Cons.prems obtain c where c: "map_of merged r = Some (JObj c)"
      by (auto simp: all_objects_iff)
    let ?m = "AList.update r (JObj (AList.update a (JBool True) c)) merged"
    have s: "set_cell_true merged r a = Inr ?m" using c by (rule set_cell_true_object)
    have o: "all_objects ?m" using Cons.prems(1) by (rule all_objects_update)
    have d: "dom (map_of ?m) = dom (map_of merged)" using c by (rule dom_update_present)
    have n: "map_of ?m r \<noteq> None" by (simp add: update_conv')
    from Cons.IH [OF o n] obtain m' where m':
      "merge_actions r (JObj cells) keys ?m = Inr m'" "all_objects m'"
      "dom (map_of m') = dom (map_of ?m)"
      "\<forall>r' a'. granted m' r' a' \<longleftrightarrow>
           granted ?m r' a' \<or> (r' = r \<and> a' \<in> set keys \<and> map_of cells a' = Some (JBool True))"
      by blast
    have g: "granted merged r a' \<longleftrightarrow> map_of c a' = Some (JBool True)" for a'
      using c by (simp add: granted_def)
    have "merge_actions r (JObj cells) (a # keys) merged = Inr m'"
      using copy s m'(1) by (simp add: obj_get_true)
    moreover have "dom (map_of m') = dom (map_of merged)" using m'(3) d by simp
    moreover have "granted m' r' a' \<longleftrightarrow>
        granted merged r' a'
        \<or> (r' = r \<and> a' \<in> set (a # keys) \<and> map_of cells a' = Some (JBool True))"
      for r' a'
      using m'(4) copy g by (auto simp: granted_update)
    ultimately show ?thesis using m'(2) by blast
  qed
qed

lemma truthy_own_object:
  assumes "all_objects merged" and "k \<notin> set object_prototype_keys"
  shows "js_truthy (obj_get merged k) \<longleftrightarrow> k \<in> dom (map_of merged)"
proof -
  consider (none) "map_of merged k = None" | (some) v where "map_of merged k = Some v"
    by (meson option.exhaust)
  then show ?thesis
  proof cases
    case none
    with assms(2) show ?thesis by (auto simp: obj_get_def)
  next
    case some
    with assms(1) obtain cells where "v = JObj cells" by (auto simp: all_objects_iff)
    with some show ?thesis by (auto simp: obj_get_def)
  qed
qed

lemma merge_resources_ok:
  assumes "all_objects merged"
    and "\<forall>k \<in> set keys. k \<notin> set object_prototype_keys
           \<and> (\<exists>cells. map_of cur k = Some (JObj cells))"
  shows "\<exists>m'. merge_resources cur keys merged = Inr m' \<and> all_objects m'
           \<and> dom (map_of m') = dom (map_of merged)
           \<and> (\<forall>r a. granted m' r a \<longleftrightarrow>
                 granted merged r a
                 \<or> (r \<in> set keys \<and> r \<in> dom (map_of merged) \<and> granted cur r a))"
  using assms
proof (induction keys arbitrary: merged)
  case Nil
  then show ?case by simp
next
  case (Cons k keys)
  from Cons.prems(2) obtain cells where k: "k \<notin> set object_prototype_keys"
    and cells: "map_of cur k = Some (JObj cells)"
    by auto
  have rest: "\<forall>k \<in> set keys. k \<notin> set object_prototype_keys
           \<and> (\<exists>cells. map_of cur k = Some (JObj cells))"
    using Cons.prems(2) by simp
  have cur_k: "obj_get cur k = JObj cells" using cells by (simp add: obj_get_def)
  have gk: "granted cur k a \<longleftrightarrow> map_of cells a = Some (JBool True)" for a
    using cells by (simp add: granted_def)
  consider (absent) "k \<notin> dom (map_of merged)" | (present) "k \<in> dom (map_of merged)"
    by blast
  then show ?case
  proof cases
    case absent
    then have "\<not> js_truthy (obj_get merged k)"
      using truthy_own_object [OF Cons.prems(1) k] by simp
    then have "merge_resources cur (k # keys) merged = merge_resources cur keys merged"
      by simp
    with Cons.IH [OF Cons.prems(1) rest] absent show ?thesis by auto
  next
    case present
    then have t: "js_truthy (obj_get merged k)"
      using truthy_own_object [OF Cons.prems(1) k] by simp
    from present have "map_of merged k \<noteq> None" by auto
    from merge_actions_ok [OF Cons.prems(1) this, of cells "map fst cells"]
    obtain m1 where m1: "merge_actions k (JObj cells) (map fst cells) merged = Inr m1"
      "all_objects m1" "dom (map_of m1) = dom (map_of merged)"
      "\<forall>r' a'. granted m1 r' a' \<longleftrightarrow>
           granted merged r' a'
           \<or> (r' = k \<and> a' \<in> set (map fst cells) \<and> map_of cells a' = Some (JBool True))"
      by blast
    have in_keys: "map_of cells a = Some (JBool True) \<Longrightarrow> a \<in> set (map fst cells)" for a
      by (metis domI dom_map_of_conv_image_fst set_map)
    have g1: "granted m1 r a \<longleftrightarrow> granted merged r a \<or> (r = k \<and> granted cur k a)" for r a
      using m1(4) in_keys gk by blast
    from Cons.IH [OF m1(2) rest] obtain m' where m':
      "merge_resources cur keys m1 = Inr m'" "all_objects m'"
      "dom (map_of m') = dom (map_of m1)"
      "\<forall>r a. granted m' r a \<longleftrightarrow>
           granted m1 r a \<or> (r \<in> set keys \<and> r \<in> dom (map_of m1) \<and> granted cur r a)"
      by blast
    have "merge_resources cur (k # keys) merged = Inr m'"
      using t cur_k m1(1) m'(1) by simp
    moreover have "dom (map_of m') = dom (map_of merged)" using m'(3) m1(3) by simp
    moreover have "granted m' r a \<longleftrightarrow>
        granted merged r a
        \<or> (r \<in> set (k # keys) \<and> r \<in> dom (map_of merged) \<and> granted cur r a)" for r a
      using m'(4) g1 m1(3) present by auto
    ultimately show ?thesis using m'(2) by blast
  qed
qed

lemma plain_permissions_keys:
  assumes "plain_permissions perms" and "k \<in> set (map fst perms)"
  shows "k \<notin> set object_prototype_keys \<and> (\<exists>cells. map_of perms k = Some (JObj cells))"
proof -
  from assms have "k \<notin> set object_prototype_keys"
    by (auto simp: plain_permissions_def list_all_iff)
  moreover from assms(2) obtain v where "map_of perms k = Some v"
    by (metis domD dom_map_of_conv_image_fst set_map)
  moreover from this assms(1) obtain cells where "v = JObj cells"
    by (auto simp: plain_permissions_def all_objects_iff)
  ultimately show ?thesis by simp
qed

lemma role_table_objects: "all_objects (role_table r)"
  by (cases r) (simp_all add: role_table_simps all_objects_def row_defs)

lemma role_table_dom:
  "dom (map_of (role_table r)) = {''users'', ''organizations'', ''reports'', ''billing'', ''api''}"
  by (cases r) (auto simp: role_table_simps row_defs split: if_splits)

lemma resources_not_inherited:
  "k \<in> {''users'', ''organizations'', ''reports'', ''billing'', ''api''}
     \<Longrightarrow> k \<notin> set object_prototype_keys"
  by (auto simp: object_prototype_keys_def)

text \<open>
  The recompute on a role change, for a prior map whose resources are objects and none
  of the names inherited from \<^verbatim>\<open>Object.prototype\<close>: the merged map is the new
  role's table plus every cell that was true in the prior map under a resource of that
  table.
\<close>

lemma update_role_recompute:
  assumes "role m \<noteq> r" and "plain_permissions (permissions_or_empty m)"
  shows "\<exists>m'. update_role r m = Inr m' \<and> role m' = r
           \<and> all_objects (permissions_or_empty m')
           \<and> dom (map_of (permissions_or_empty m')) = dom (map_of (role_table r))
           \<and> (\<forall>res act. granted (permissions_or_empty m') res act \<longleftrightarrow>
                 granted (role_table r) res act
                 \<or> (res \<in> dom (map_of (role_table r))
                     \<and> granted (permissions_or_empty m) res act))"
proof -
  let ?cur = "permissions_or_empty m"
  have keys: "\<forall>k \<in> set (map fst ?cur). k \<notin> set object_prototype_keys
           \<and> (\<exists>cells. map_of ?cur k = Some (JObj cells))"
    using plain_permissions_keys [OF assms(2)] by blast
  from merge_resources_ok [OF role_table_objects keys, of r]
  obtain merged where merged:
    "merge_resources ?cur (map fst ?cur) (role_table r) = Inr merged" "all_objects merged"
    "dom (map_of merged) = dom (map_of (role_table r))"
    "\<forall>res act. granted merged res act \<longleftrightarrow>
         granted (role_table r) res act
         \<or> (res \<in> set (map fst ?cur) \<and> res \<in> dom (map_of (role_table r))
             \<and> granted ?cur res act)"
    by blast
  have in_keys: "granted ?cur res act \<Longrightarrow> res \<in> set (map fst ?cur)" for res act
    by (auto simp: granted_def split: option.splits dest!: map_of_SomeD intro: rev_image_eqI)
  let ?m' = "m\<lparr>role := r, permissions := Some merged\<rparr>"
  have "update_role r m = Inr ?m'"
    using assms(1) merged(1)
    by (simp add: update_role_def beforeUpdate_def Let_def permissions_or_empty_def)
  moreover have "permissions_or_empty ?m' = merged"
    by (simp add: permissions_or_empty_def)
  ultimately show ?thesis
    using merged(2,3,4) in_keys by (intro exI [of _ ?m']) auto
qed

lemma grantPermission_present:
  assumes "all_objects (permissions_or_empty m)"
    and "res \<in> dom (map_of (permissions_or_empty m))"
  shows "\<exists>m'. grantPermission res act m = Inr m' \<and> role m' = role m
           \<and> all_objects (permissions_or_empty m')
           \<and> dom (map_of (permissions_or_empty m')) = dom (map_of (permissions_or_empty m))
           \<and> (\<forall>r a. granted (permissions_or_empty m') r a \<longleftrightarrow>
                 granted (permissions_or_empty m) r a \<or> (r = res \<and> a = act))"
proof -
  let ?cur = "permissions_or_empty m"
  from assms obtain c where c: "map_of ?cur res = Some (JObj c)"
    by (auto simp: all_objects_iff)
  then have t: "js_truthy (obj_get ?cur res)" by (simp add: obj_get_def)
  let ?p = "AList.update res (JObj (AList.update act (JBool True) c)) ?cur"
  let ?m' = "m\<lparr>permissions := Some ?p\<rparr>"
  have "grantPermission res act m = Inr ?m'"
    using t set_cell_true_object [OF c, of act]
    by (simp add: grantPermission_def beforeUpdate_def Let_def)
  moreover have p: "permissions_or_empty ?m' = ?p" by (simp add: permissions_or_empty_def)
  moreover have "all_objects ?p" using assms(1) by (rule all_objects_update)
  moreover have "dom (map_of ?p) = dom (map_of ?cur)" using c by (rule dom_update_present)
  moreover have "granted ?p r a \<longleftrightarrow> granted ?cur r a \<or> (r = res \<and> a = act)" for r a
  proof -
    have "granted ?cur res a \<longleftrightarrow> map_of c a = Some (JBool True)"
      using c by (simp add: granted_def)
    then show ?thesis by (auto simp: granted_update)
  qed
  ultimately show ?thesis by (intro exI [of _ ?m']) (simp del: permissions_or_empty_def)
qed

lemma plain_permissions_resources:
  assumes "all_objects p"
    and "dom (map_of p) = {''users'', ''organizations'', ''reports'', ''billing'', ''api''}"
  shows "plain_permissions p"
proof -
  have "k \<notin> set object_prototype_keys" if "k \<in> set (map fst p)" for k
  proof -
    from that have "k \<in> dom (map_of p)" by (simp add: dom_map_of_conv_image_fst)
    with assms(2) show ?thesis using resources_not_inherited by blast
  qed
  with assms(1) show ?thesis by (simp add: plain_permissions_def list_all_iff)
qed

lemma round_trip_cells:
  assumes "role m = Viewer" and "plain_permissions (permissions_or_empty m)"
  shows "\<exists>m3. promote_grant_demote m = Inr m3 \<and> role m3 = Viewer
           \<and> granted (permissions_or_empty m3) ''reports'' ''export''
           \<and> granted (permissions_or_empty m3) ''reports'' ''write''"
proof -
  from assms(1) have "role m \<noteq> Manager" by simp
  from update_role_recompute [OF this assms(2)] obtain m1 where m1:
    "update_role Manager m = Inr m1" "role m1 = Manager"
    "all_objects (permissions_or_empty m1)"
    "dom (map_of (permissions_or_empty m1)) = dom (map_of (role_table Manager))"
    "\<forall>res act. granted (permissions_or_empty m1) res act \<longleftrightarrow>
         granted (role_table Manager) res act
         \<or> (res \<in> dom (map_of (role_table Manager))
             \<and> granted (permissions_or_empty m) res act)"
    by blast
  have w1: "granted (permissions_or_empty m1) ''reports'' ''write''"
    using m1(5) by (simp add: granted_manager)
  have "''reports'' \<in> dom (map_of (permissions_or_empty m1))"
    unfolding m1(4) role_table_dom by simp
  from grantPermission_present [OF m1(3) this, of "''export''"] obtain m2 where m2:
    "grantPermission ''reports'' ''export'' m1 = Inr m2" "role m2 = role m1"
    "all_objects (permissions_or_empty m2)"
    "dom (map_of (permissions_or_empty m2)) = dom (map_of (permissions_or_empty m1))"
    "\<forall>r a. granted (permissions_or_empty m2) r a \<longleftrightarrow>
         granted (permissions_or_empty m1) r a \<or> (r = ''reports'' \<and> a = ''export'')"
    by blast
  have w2: "granted (permissions_or_empty m2) ''reports'' ''write''"
    and e2: "granted (permissions_or_empty m2) ''reports'' ''export''"
    using m2(5) w1 by simp_all
  have "role m2 \<noteq> Viewer" using m2(2) m1(2) by simp
  moreover have "plain_permissions (permissions_or_empty m2)"
    using m2(3) m2(4) m1(4) by (intro plain_permissions_resources) (simp_all add: role_table_dom)
  ultimately obtain m3 where m3:
    "update_role Viewer m2 = Inr m3" "role m3 = Viewer"
    "\<forall>res act. granted (permissions_or_empty m3) res act \<longleftrightarrow>
         granted (role_table Viewer) res act
         \<or> (res \<in> dom (map_of (role_table Viewer))
             \<and> granted (permissions_or_empty m2) res act)"
    using update_role_recompute [of m2 Viewer] by blast
  have "''reports'' \<in> dom (map_of (role_table Viewer))"
    unfolding role_table_dom by simp
  with m3(3) w2 e2 have "granted (permissions_or_empty m3) ''reports'' ''export''"
    and "granted (permissions_or_empty m3) ''reports'' ''write''"
    by simp_all
  moreover have "promote_grant_demote m = Inr m3"
    using m1(1) m2(1) m3(1) by (simp add: promote_grant_demote_def)
  ultimately show ?thesis using m3(2) by blast
qed

lemma set_cell_true_Cons:
  "set_cell_true ((k, JObj c) # t) r a =
     (if r = k then Inr ((k, JObj (AList.update a (JBool True) c)) # t)
      else (case set_cell_true t r a of
              Inl e \<Rightarrow> Inl e
            | Inr t' \<Rightarrow> Inr ((k, JObj c) # t')))"
  by (simp add: set_cell_true_def split: option.splits jsval.splits)

lemma sample_round_trip: "promote_grant_demote viewer_member = Inr demoted_member"
  by (simp add: promote_grant_demote_def update_role_def beforeUpdate_def Let_def
      viewer_member_def demoted_member_def permissions_or_empty_def role_table_simps row_defs
      obj_get_def object_prototype_keys_def set_cell_true_Cons grantPermission_def)

lemma update_role_never_revokes:
  assumes "role m \<noteq> r" and "plain_permissions (permissions_or_empty m)"
    and "granted (permissions_or_empty m) res act"
    and "res \<in> {''users'', ''organizations'', ''reports'', ''billing'', ''api''}"
  shows "\<exists>m'. update_role r m = Inr m' \<and> role m' = r
           \<and> hasPermission m' res act = Inr True"
proof -
  from update_role_recompute [OF assms(1,2)] obtain m' where m':
    "update_role r m = Inr m'" "role m' = r"
    "\<forall>res act. granted (permissions_or_empty m') res act \<longleftrightarrow>
         granted (role_table r) res act
         \<or> (res \<in> dom (map_of (role_table r))
             \<and> granted (permissions_or_empty m) res act)"
    by blast
  from assms(4) have "res \<in> dom (map_of (role_table r))"
    unfolding role_table_dom .
  with m'(3) assms(3) have "granted (permissions_or_empty m') res act" by blast
  with m'(1,2) show ?thesis by (auto simp: hasPermission_true_iff)
qed

text \<open>
  C1. After the role change \<open>viewer\<close> to \<open>manager\<close>, the grant of
  \<open>reports.export\<close> and the role change back to \<open>viewer\<close>, \<open>reports.write\<close> is
  meant to be false again. For a viewer with the viewer defaults it is true after the
  second role change: the hook writes every true cell of the stored map back into the
  new role's table, the cells the \<open>manager\<close> defaults had set among them.
\<close>

theorem round_trip_keeps_write:
  "promote_grant_demote viewer_member = Inr demoted_member
   \<and> hasPermission demoted_member ''reports'' ''write'' = Inr True
   \<and> hasPermission demoted_member ''reports'' ''write'' \<noteq> Inr False"
  using sample_round_trip
  by (simp add: hasPermission_def demoted_member_def permissions_or_empty_def row_defs
      obj_get_def)

text \<open>
  The same holds from any such starting map whose resources are none of the names
  inherited from \<^verbatim>\<open>Object.prototype\<close>: every step of the scenario succeeds, and
  both cells are true at the end.
\<close>

lemma round_trip_general:
  assumes "role m = Viewer" and "plain_permissions (permissions_or_empty m)"
  shows "\<exists>m3. promote_grant_demote m = Inr m3 \<and> role m3 = Viewer
           \<and> hasPermission m3 ''reports'' ''export'' = Inr True
           \<and> hasPermission m3 ''reports'' ''write'' = Inr True"
  using round_trip_cells [OF assms] by (simp add: hasPermission_true_iff)

end
